theory Spec2Isabelle
  imports Main "HOL-Library.AList"
begin

section \<open>Interval resolution\<close>

text \<open>
  The bucket-width constants of the logs-volume module. JavaScript numbers that hold
  millisecond counts are modelled as \<open>int\<close>.
\<close>

definition MILLISECOND :: int where
  "MILLISECOND = 1"

definition SECOND :: int where
  "SECOND = 1000 * MILLISECOND"

definition MINUTE :: int where
  "MINUTE = 60 * SECOND"

definition HOUR :: int where
  "HOUR = 60 * MINUTE"

definition DAY :: int where
  "DAY = 24 * HOUR"

text \<open>
  \<open>ScopedVars\<close> is a dictionary of optional entries. Only two entries are read:
  \<open>__interval\<close> (tested for truthiness; an entry object is truthy exactly when it is
  present) and \<open>__interval_ms\<close> (its \<open>.value\<close> is read into a variable declared
  \<open>number\<close>). Each entry is modelled by its \<open>.value\<close>; an absent entry is \<open>None\<close>.
\<close>

record ScopedVars =
  interval_entry :: "string option"
  interval_ms_entry :: "int option"

text \<open>Reading a property of \<open>undefined\<close> throws a \<open>TypeError\<close>.\<close>

datatype js_error = TypeError

record IntervalInfo =
  interval :: string
  intervalMs :: "int option"

definition getIntervalInfo :: "ScopedVars \<Rightarrow> int \<Rightarrow> js_error + IntervalInfo" where
  "getIntervalInfo scopedVars timespanMs =
     (case interval_entry scopedVars of
        Some _ \<Rightarrow>
          (case interval_ms_entry scopedVars of
             None \<Rightarrow> Inl TypeError
           | Some hintMs \<Rightarrow>
               if timespanMs < SECOND * 5 then
                 Inr \<lparr>interval = ''1ms'', intervalMs = Some MILLISECOND\<rparr>
               else if hintMs > HOUR then
                 Inr \<lparr>interval = ''1d'', intervalMs = Some DAY\<rparr>
               else if hintMs > MINUTE then
                 Inr \<lparr>interval = ''1h'', intervalMs = Some HOUR\<rparr>
               else if hintMs > SECOND then
                 Inr \<lparr>interval = ''1m'', intervalMs = Some MINUTE\<rparr>
               else
                 Inr \<lparr>interval = ''1s'', intervalMs = Some SECOND\<rparr>)
      | None \<Rightarrow> Inr \<lparr>interval = ''$__interval'', intervalMs = None\<rparr>)"

text \<open>
  \<open>getTimeFieldRoundingClause\<close> returns a string and may write one diagnostic line
  with \<open>console.error\<close>; the model returns both. The optional third argument
  defaults to \<open>created_at\<close>.
\<close>

record RoundingClause =
  clause :: string
  console_errors :: "string list"

definition toStartOfInterval :: "string \<Rightarrow> string \<Rightarrow> string" where
  "toStartOfInterval timeField unit =
     ''toStartOfInterval('' @ [CHR 0x22] @ timeField @ [CHR 0x22] @ '', INTERVAL 1 '' @ unit @ '')''"

definition getTimeFieldRoundingClause ::
  "ScopedVars \<Rightarrow> int \<Rightarrow> string option \<Rightarrow> js_error + RoundingClause" where
  "getTimeFieldRoundingClause scopedVars timespanMs timeFieldArg =
     (let timeField = (case timeFieldArg of None \<Rightarrow> ''created_at'' | Some t \<Rightarrow> t) in
      case interval_entry scopedVars of
        Some _ \<Rightarrow>
          (case interval_ms_entry scopedVars of
             None \<Rightarrow> Inl TypeError
           | Some hintMs \<Rightarrow>
               if timespanMs < SECOND * 5 then
                 Inr \<lparr>clause = toStartOfInterval timeField ''DAY'',
                      console_errors = [''MILLIS precision is not supported'']\<rparr>
               else if hintMs > HOUR then
                 Inr \<lparr>clause = toStartOfInterval timeField ''DAY'', console_errors = []\<rparr>
               else if hintMs > MINUTE then
                 Inr \<lparr>clause = toStartOfInterval timeField ''HOUR'', console_errors = []\<rparr>
               else if hintMs > SECOND then
                 Inr \<lparr>clause = toStartOfInterval timeField ''MINUTE'', console_errors = []\<rparr>
               else
                 Inr \<lparr>clause = toStartOfInterval timeField ''SECOND'', console_errors = []\<rparr>)
      | None \<Rightarrow> Inr \<lparr>clause = toStartOfInterval timeField ''DAY'', console_errors = []\<rparr>)"

text \<open>
  The correspondence between the labels of \<open>getIntervalInfo\<close> and the SQL units of
  \<open>getTimeFieldRoundingClause\<close> that the specification asks for.
\<close>

definition unit_of_label :: "string \<Rightarrow> string" where
  "unit_of_label l =
     (if l = ''1d'' then ''DAY'' else if l = ''1h'' then ''HOUR''
      else if l = ''1m'' then ''MINUTE'' else ''SECOND'')"

section \<open>Per-level reduction\<close>

text \<open>
  A cell of a column is a number, \<open>null\<close>, or \<open>undefined\<close> (what reading past the
  end of a column gives). A JavaScript number is an IEEE double; \<open>JNum n\<close> stands for
  the double that holds the integer \<open>n\<close>. The module does not check the sign of a
  cell.
\<close>

datatype jsval = JNull | JUndefined | JNum int

text \<open>\<open>v || 0\<close>: \<open>null\<close>, \<open>undefined\<close> and \<open>0\<close> are falsy.\<close>

definition orZero :: "jsval \<Rightarrow> int" where
  "orZero v = (case v of JNum n \<Rightarrow> n | _ \<Rightarrow> 0)"

text \<open>\<open>v > 0\<close>: \<open>null\<close> converts to \<open>0\<close> and \<open>undefined\<close> to \<open>NaN\<close>, so both give false.\<close>

definition gtZero :: "jsval \<Rightarrow> bool" where
  "gtZero v = (case v of JNum n \<Rightarrow> 0 < n | _ \<Rightarrow> False)"

text \<open>A cell that is not a negative number: a count, or a missing cell.\<close>

definition nonNegative :: "jsval \<Rightarrow> bool" where
  "nonNegative v = (case v of JNum n \<Rightarrow> 0 \<le> n | _ \<Rightarrow> True)"

text \<open>\<open>values.get(i)\<close>: an index past the end reads \<open>undefined\<close>.\<close>

definition vget :: "jsval list \<Rightarrow> nat \<Rightarrow> jsval" where
  "vget xs i = (if i < length xs then xs ! i else JUndefined)"

datatype LogLevel = critical | error | warning | info | debug | trace | unknown

text \<open>The string value of a member of the \<open>LogLevel\<close> enumeration.\<close>

fun levelName :: "LogLevel \<Rightarrow> string" where
  "levelName critical = ''critical''"
| "levelName error = ''error''"
| "levelName warning = ''warning''"
| "levelName info = ''info''"
| "levelName debug = ''debug''"
| "levelName trace = ''trace''"
| "levelName unknown = ''unknown''"

record Field =
  name :: string
  fvalues :: "jsval list"

record DataFrame =
  frame_fields :: "Field list"

text \<open>
  What the module imports from the Grafana packages and does not define itself: the level
  classifier \<open>getLogLevelFromKey\<close>, the palette behind \<open>LogLevelColor\<close>, and the
  cell \<open>MISSING_VALUE\<close> with which \<open>MutableDataFrame.addField\<close> pads a new column
  to its start length (null or undefined, depending on the library). They are parameters
  of the model.
\<close>

record Grafana =
  getLogLevelFromKey :: "string \<Rightarrow> LogLevel"
  LogLevelColor :: "LogLevel \<Rightarrow> string"
  MISSING_VALUE :: jsval

definition TIME_FIELD_ALIAS :: string where
  "TIME_FIELD_ALIAS = ''time''"

definition DEFAULT_LOGS_ALIAS :: string where
  "DEFAULT_LOGS_ALIAS = ''logs''"

text \<open>
  The field configuration of an output series. The render hints (bars, centred, stacking
  group) are the same constants for every series and are left out; the three colour
  entries of \<open>custom\<close> repeat \<open>fixedColor\<close>.
\<close>

record FieldConfig =
  displayNameFromDS :: string
  fixedColor :: string

definition getLogVolumeFieldConfig :: "Grafana \<Rightarrow> LogLevel \<Rightarrow> bool \<Rightarrow> FieldConfig" where
  "getLogVolumeFieldConfig G level oneLevelDetected =
     \<lparr>displayNameFromDS =
        (if oneLevelDetected \<and> level = unknown then ''logs'' else levelName level),
      fixedColor = LogLevelColor G level\<rparr>"

text \<open>
  The provenance that \<open>queryLogsVolume\<close> attaches to the first output series: the
  query targets (each modelled by its reference id) and the absolute time range in
  milliseconds.
\<close>

datatype TQuery = TQuery string

record FrameMeta =
  targets :: "TQuery list"
  absoluteRange :: "int \<times> int"

text \<open>
  An output series: a frame with the two columns \<open>Time\<close> and \<open>Value\<close>, the
  configuration of the \<open>Value\<close> column, and the optional \<open>meta\<close>.
\<close>

record MutableDataFrame =
  Time :: "jsval list"
  Value :: "jsval list"
  config :: FieldConfig
  meta :: "FrameMeta option"

record LevelEntry =
  frame :: MutableDataFrame
  hasNonZeroValues :: bool

text \<open>
  The folded cell of one row (line 164 of the module), with the sum taken in the
  integers. That is the sum the module computes as long as it stays within \<open>2^53\<close> in
  magnitude, where the addition of doubles is exact.
\<close>

definition totalValue :: "jsval \<Rightarrow> jsval \<Rightarrow> jsval" where
  "totalValue currentValue valueToAdd =
     (if currentValue = JNull \<and> valueToAdd = JNull then JNull
      else JNum (orZero currentValue + orZero valueToAdd))"






text \<open>
  The entry created for a level that is not in the map yet: both columns padded to
  \<open>totalLength\<close> cells.
\<close>

definition newEntry :: "Grafana \<Rightarrow> LogLevel \<Rightarrow> bool \<Rightarrow> nat \<Rightarrow> LevelEntry" where
  "newEntry G logLevel oneLevelDetected totalLength =
     \<lparr>frame =
        \<lparr>Time = replicate totalLength (MISSING_VALUE G),
         Value = replicate totalLength (MISSING_VALUE G),
         config = getLogVolumeFieldConfig G logLevel oneLevelDetected,
         meta = None\<rparr>,
      hasNonZeroValues = False\<rparr>"

text \<open>
  The body of the loop over \<open>pointIndex\<close>. Every index it is run at is below the
  length of both columns of the entry, so \<open>frame.set\<close> overwrites row \<open>pointIndex\<close>.
\<close>

definition foldPoint :: "Field \<Rightarrow> Field \<Rightarrow> nat \<Rightarrow> LevelEntry \<Rightarrow> LevelEntry" where
  "foldPoint timeField field pointIndex df =
     (let currentValue = vget (Value (frame df)) pointIndex;
          valueToAdd = vget (fvalues field) pointIndex;
          total = totalValue currentValue valueToAdd
      in \<lparr>frame = (frame df)
             \<lparr>Time := (Time (frame df))[pointIndex := vget (fvalues timeField) pointIndex],
              Value := (Value (frame df))[pointIndex := total]\<rparr>,
          hasNonZeroValues = (hasNonZeroValues df \<or> gtZero total)\<rparr>)"

function forPoints :: "Field \<Rightarrow> Field \<Rightarrow> nat \<Rightarrow> nat \<Rightarrow> LevelEntry \<Rightarrow> LevelEntry" where
  "forPoints timeField field totalLength pointIndex df =
     (if pointIndex < totalLength
      then forPoints timeField field totalLength (Suc pointIndex)
             (foldPoint timeField field pointIndex df)
      else df)"
  by pat_completeness auto
termination
  by (relation "measure (\<lambda>(timeField, field, totalLength, pointIndex, df). totalLength - pointIndex)")
     auto

text \<open>
  The JavaScript \<open>Map\<close> from level to entry keeps its keys in insertion order;
  \<open>set\<close> on a key that is present replaces the entry in place. It is an association
  list with \<open>map_of\<close> for \<open>get\<close> and \<open>AList.update\<close> for \<open>set\<close>.
\<close>

type_synonym LevelMap = "(LogLevel \<times> LevelEntry) list"

text \<open>The body of \<open>levelFields.forEach\<close>.\<close>

definition forField ::
  "Grafana \<Rightarrow> Field \<Rightarrow> bool \<Rightarrow> nat \<Rightarrow> LevelMap \<Rightarrow> Field \<Rightarrow> LevelMap" where
  "forField G timeField oneLevelDetected totalLength logLevelToDataFrame field =
     (let logLevel = getLogLevelFromKey G (name field);
          df = (case map_of logLevelToDataFrame logLevel of
                  None \<Rightarrow> newEntry G logLevel oneLevelDetected totalLength
                | Some d \<Rightarrow> d)
      in AList.update logLevel (forPoints timeField field totalLength 0 df)
           logLevelToDataFrame)"

text \<open>The map once \<open>forEach\<close> has run over the level columns.\<close>

definition levelMap :: "Grafana \<Rightarrow> Field \<Rightarrow> Field list \<Rightarrow> LevelMap" where
  "levelMap G timeField levelFields =
     (let oneLevelDetected =
            (length levelFields = 1 \<and> name (levelFields ! 0) = DEFAULT_LOGS_ALIAS);
          totalLength = length (fvalues timeField)
      in foldl (forField G timeField oneLevelDetected totalLength) [] levelFields)"

text \<open>The final \<open>reduce\<close> over the entries of the map, in insertion order.\<close>

definition pushNonZero :: "MutableDataFrame list \<Rightarrow> LevelEntry \<Rightarrow> MutableDataFrame list" where
  "pushNonZero acc e = (if hasNonZeroValues e then acc @ [frame e] else acc)"

definition aggregateRawLogsVolume :: "Grafana \<Rightarrow> DataFrame list \<Rightarrow> MutableDataFrame list" where
  "aggregateRawLogsVolume G rawLogsVolume =
     (if length rawLogsVolume \<noteq> 1 then []
      else
        case partition (\<lambda>f. name f = TIME_FIELD_ALIAS) (frame_fields (rawLogsVolume ! 0)) of
          ([], levelFields) \<Rightarrow> []
        | (timeField # _, levelFields) \<Rightarrow>
            foldl pushNonZero [] (map snd (levelMap G timeField levelFields)))"

text \<open>
  A concrete instance of the imported parts, used to run the reducer on examples.
\<close>

text \<open>
  Modelled from the spec: the level classifier \<open>getLogLevelFromKey\<close> comes from the
  Grafana data package and is not part of the module. Section 4.1 of the specification
  makes it a total function into the seven levels that recognises the listed synonyms
  and defaults to \<open>unknown\<close>.
\<close>

definition classify :: "string \<Rightarrow> LogLevel" where
  "classify rawName =
     (if rawName = ''critical'' then critical
      else if rawName = ''err'' \<or> rawName = ''error'' then error
      else if rawName = ''warn'' \<or> rawName = ''warning'' then warning
      else if rawName = ''info'' \<or> rawName = ''information'' \<or> rawName = ''informational''
        then info
      else if rawName = ''debug'' then debug
      else if rawName = ''trace'' then trace
      else unknown)"

text \<open>
  Modelled from the spec: a new accumulator cell holds "no value" (section 3), and each
  level has a constant colour (section 4.3); the colour strings here are placeholders
  named after the level.
\<close>

definition grafana :: Grafana where
  "grafana = \<lparr>getLogLevelFromKey = classify, LogLevelColor = levelName, MISSING_VALUE = JNull\<rparr>"

section \<open>The aggregation pipeline\<close>

datatype LoadingState = Loading | Done | Error

datatype DataQueryError = DataQueryError string

text \<open>A batch delivered by the datasource's query observable.\<close>

record DataQueryResponse =
  batch_error :: "DataQueryError option"
  batch_data :: "DataFrame list"

text \<open>A state published by \<open>queryLogsVolume\<close> with \<open>observer.next\<close>.\<close>

record LogsVolumeResponse =
  resp_state :: LoadingState
  resp_error :: "DataQueryError option"
  resp_data :: "MutableDataFrame list"

text \<open>What the subscriber of the returned observable receives.\<close>

datatype Notification = Next LogsVolumeResponse | Failed DataQueryError | Complete

text \<open>
  The state of one subscription to the observable that \<open>queryLogsVolume\<close> returns:
  the variable \<open>rawLogsVolume\<close> of the closure; the notifications delivered so far;
  whether the subscriber \<open>observer\<close> is closed (it has been sent \<open>error\<close> or
  \<open>complete\<close>, or was unsubscribed); whether the subscription to the query
  observable is closed (the query observable completed or failed, or
  \<open>subscription.unsubscribe()\<close> ran); whether the function passed to
  \<open>new Observable\<close> has returned its teardown; and how often
  \<open>datasource.query\<close> was called.
\<close>

record Pipeline =
  rawLogsVolume :: "DataFrame list"
  delivered :: "Notification list"
  observerClosed :: bool
  upstreamClosed :: bool
  teardownAdded :: bool
  queryCalls :: nat

text \<open>
  The contract of an rxjs subscriber: a closed subscriber drops \<open>next\<close>,
  \<open>error\<close> and \<open>complete\<close>; \<open>error\<close> and \<open>complete\<close> deliver the notification
  and then unsubscribe; unsubscribing closes the subscriber and runs the teardown if
  the subscribe function has returned it already.
\<close>

text \<open>The returned teardown, \<open>() => subscription?.unsubscribe()\<close>.\<close>

definition teardown :: "Pipeline \<Rightarrow> Pipeline" where
  "teardown s = s\<lparr>upstreamClosed := True\<rparr>"

definition observer_unsubscribe :: "Pipeline \<Rightarrow> Pipeline" where
  "observer_unsubscribe s =
     (if observerClosed s then s
      else if teardownAdded s then teardown (s\<lparr>observerClosed := True\<rparr>)
      else s\<lparr>observerClosed := True\<rparr>)"

definition observer_next :: "LogsVolumeResponse \<Rightarrow> Pipeline \<Rightarrow> Pipeline" where
  "observer_next r s =
     (if observerClosed s then s else s\<lparr>delivered := delivered s @ [Next r]\<rparr>)"

definition observer_error :: "DataQueryError \<Rightarrow> Pipeline \<Rightarrow> Pipeline" where
  "observer_error e s =
     (if observerClosed s then s
      else observer_unsubscribe (s\<lparr>delivered := delivered s @ [Failed e]\<rparr>))"

definition observer_complete :: "Pipeline \<Rightarrow> Pipeline" where
  "observer_complete s =
     (if observerClosed s then s
      else observer_unsubscribe (s\<lparr>delivered := delivered s @ [Complete]\<rparr>))"

text \<open>\<open>toDataFrame\<close> returns a value that is a data frame already as it is.\<close>

definition toDataFrame :: "DataFrame \<Rightarrow> DataFrame" where
  "toDataFrame d = d"

record LogsVolumeQueryOptions =
  opt_targets :: "TQuery list"
  opt_range :: "int \<times> int"

text \<open>The three handlers that \<open>queryLogsVolume\<close> subscribes to the query observable.\<close>

definition on_complete :: "Grafana \<Rightarrow> LogsVolumeQueryOptions \<Rightarrow> Pipeline \<Rightarrow> Pipeline" where
  "on_complete G options s =
     (let aggregatedLogsVolume =
            (case aggregateRawLogsVolume G (rawLogsVolume s) of
               [] \<Rightarrow> []
             | first # others \<Rightarrow>
                 first\<lparr>meta := Some \<lparr>targets = opt_targets options,
                                       absoluteRange = opt_range options\<rparr>\<rparr> # others)
      in observer_complete
           (observer_next
              \<lparr>resp_state = Done, resp_error = None, resp_data = aggregatedLogsVolume\<rparr> s))"

definition on_next :: "DataQueryResponse \<Rightarrow> Pipeline \<Rightarrow> Pipeline" where
  "on_next dataQueryResponse s =
     (case batch_error dataQueryResponse of
        Some e \<Rightarrow>
          observer_error e
            (observer_next \<lparr>resp_state = Error, resp_error = Some e, resp_data = []\<rparr> s)
      | None \<Rightarrow>
          s\<lparr>rawLogsVolume :=
              rawLogsVolume s @ map toDataFrame (batch_data dataQueryResponse)\<rparr>)"

definition on_error :: "DataQueryError \<Rightarrow> Pipeline \<Rightarrow> Pipeline" where
  "on_error e s =
     observer_error e
       (observer_next \<lparr>resp_state = Error, resp_error = Some e, resp_data = []\<rparr> s)"

text \<open>
  The body of the function passed to \<open>new Observable\<close>, up to the call of
  \<open>queryObservable.subscribe\<close>: it publishes \<open>Loading\<close> and issues the query.
\<close>

definition subscribe :: Pipeline where
  "subscribe =
     (observer_next \<lparr>resp_state = Loading, resp_error = None, resp_data = []\<rparr>
        \<lparr>rawLogsVolume = [], delivered = [], observerClosed = False, upstreamClosed = False,
         teardownAdded = False, queryCalls = 0\<rparr>)
     \<lparr>queryCalls := 1\<rparr>"

text \<open>
  What can happen to a subscription afterwards: the query observable delivers a batch,
  completes or fails; the subscribe function returns its teardown; the caller
  unsubscribes. The query observable calls no handler once its subscription is closed,
  and it closes the subscription before it calls \<open>complete\<close> or \<open>error\<close>. A
  teardown added to a subscriber that is closed already runs at once.
\<close>

datatype Event =
  UpstreamNext DataQueryResponse
| UpstreamComplete
| UpstreamError DataQueryError
| SubscribeReturns
| Unsubscribe

fun step :: "Grafana \<Rightarrow> LogsVolumeQueryOptions \<Rightarrow> Pipeline \<Rightarrow> Event \<Rightarrow> Pipeline" where
  "step G options s (UpstreamNext r) = (if upstreamClosed s then s else on_next r s)"
| "step G options s UpstreamComplete =
     (if upstreamClosed s then s else on_complete G options (s\<lparr>upstreamClosed := True\<rparr>))"
| "step G options s (UpstreamError e) =
     (if upstreamClosed s then s else on_error e (s\<lparr>upstreamClosed := True\<rparr>))"
| "step G options s SubscribeReturns =
     (if observerClosed s then teardown (s\<lparr>teardownAdded := True\<rparr>)
      else s\<lparr>teardownAdded := True\<rparr>)"
| "step G options s Unsubscribe = observer_unsubscribe s"

text \<open>A run of \<open>queryLogsVolume\<close>: one subscription and the events that follow it.\<close>

definition queryLogsVolume :: "Grafana \<Rightarrow> LogsVolumeQueryOptions \<Rightarrow> Event list \<Rightarrow> Pipeline" where
  "queryLogsVolume G options events = foldl (step G options) subscribe events"

text \<open>The states published so far, oldest first.\<close>

fun published :: "Notification list \<Rightarrow> LogsVolumeResponse list" where
  "published [] = []"
| "published (Next r # ns) = r # published ns"
| "published (_ # ns) = published ns"

text \<open>The first state of every run.\<close>

definition loading :: LogsVolumeResponse where
  "loading = \<lparr>resp_state = Loading, resp_error = None, resp_data = []\<rparr>"

text \<open>
  What holds of the state after any list of events: a closed query subscription implies
  a closed subscriber; a closed subscriber whose teardown has been added implies a closed
  query subscription; and the notifications delivered are \<open>Loading\<close> alone, or
  \<open>Loading\<close> followed by one terminal state and the matching terminal notification.
\<close>

definition lifecycle :: "Event list \<Rightarrow> Pipeline \<Rightarrow> bool" where
  "lifecycle events s \<longleftrightarrow>
     (upstreamClosed s \<longrightarrow> observerClosed s)
     \<and> (observerClosed s \<and> teardownAdded s \<longrightarrow> upstreamClosed s)
     \<and> (teardownAdded s \<longleftrightarrow> SubscribeReturns \<in> set events)
     \<and> queryCalls s = 1
     \<and> (if observerClosed s then
           (delivered s = [Next loading] \<and> Unsubscribe \<in> set events)
           \<or> (\<exists>e. delivered s =
                  [Next loading,
                   Next \<lparr>resp_state = Error, resp_error = Some e, resp_data = []\<rparr>, Failed e])
           \<or> (\<exists>d. delivered s =
                  [Next loading,
                   Next \<lparr>resp_state = Done, resp_error = None, resp_data = d\<rparr>, Complete]
                \<and> UpstreamComplete \<in> set events)
         else delivered s = [Next loading]
           \<and> (\<forall>x \<in> set events. x = SubscribeReturns
                 \<or> (\<exists>r. x = UpstreamNext r \<and> batch_error r = None)))"

text \<open>A batch with one frame, and query options, for the examples.\<close>

definition batch1 :: DataQueryResponse where
  "batch1 =
     \<lparr>batch_error = None,
      batch_data =
        [\<lparr>frame_fields =
            [\<lparr>name = ''time'', fvalues = [JNum 0, JNum 60000, JNum 120000]\<rparr>,
             \<lparr>name = ''warn'', fvalues = [JNum 1, JNum 0, JNum 2]\<rparr>,
             \<lparr>name = ''warning'', fvalues = [JNum 0, JNum 0, JNum 1]\<rparr>]\<rparr>]\<rparr>"

definition options1 :: LogsVolumeQueryOptions where
  "options1 = \<lparr>opt_targets = [TQuery ''A''], opt_range = (0, 180000)\<rparr>"

section \<open>Properties\<close>

subsection \<open>Interval resolution\<close>

lemmas ms_defs = MILLISECOND_def SECOND_def MINUTE_def HOUR_def DAY_def

lemma toStartOfInterval_inj: "toStartOfInterval tf u = toStartOfInterval tf u' \<longleftrightarrow> u = u'"
  by (simp add: toStartOfInterval_def)

text \<open>
  Claim C6. \<open>getIntervalInfo\<close> applies three rules in order. Without an
  \<open>__interval\<close> entry it returns the placeholder \<open>$__interval\<close> and no width. With
  a hint, a time span below 5000 ms gives 1 ms whatever the hint is. Otherwise the hint
  \<open>h\<close> is snapped: above one hour to one day, above one minute to one hour, above one
  second to one minute, else to one second.
\<close>

theorem getIntervalInfo_policy:
  "(interval_entry sv = None \<longrightarrow>
      getIntervalInfo sv t = Inr \<lparr>interval = ''$__interval'', intervalMs = None\<rparr>)
   \<and> (interval_entry sv \<noteq> None \<and> interval_ms_entry sv = Some h \<longrightarrow>
      getIntervalInfo sv t =
        Inr (if t < 5000 then \<lparr>interval = ''1ms'', intervalMs = Some 1\<rparr>
             else if h > 3600000 then \<lparr>interval = ''1d'', intervalMs = Some 86400000\<rparr>
             else if h > 60000 then \<lparr>interval = ''1h'', intervalMs = Some 3600000\<rparr>
             else if h > 1000 then \<lparr>interval = ''1m'', intervalMs = Some 60000\<rparr>
             else \<lparr>interval = ''1s'', intervalMs = Some 1000\<rparr>))"
  by (auto simp: getIntervalInfo_def ms_defs split: option.splits)

text \<open>
  The three rules at concrete inputs: no hint; a two-hour hint over a span of
  10,000,000 ms, which gives the one-day bucket; the same hint over 3000 ms.
\<close>

theorem getIntervalInfo_policy_witness:
  "getIntervalInfo \<lparr>interval_entry = None, interval_ms_entry = Some 7200000\<rparr> 10000000
     = Inr \<lparr>interval = ''$__interval'', intervalMs = None\<rparr>
   \<and> getIntervalInfo \<lparr>interval_entry = Some ''2h'', interval_ms_entry = Some 7200000\<rparr> 10000000
     = Inr \<lparr>interval = ''1d'', intervalMs = Some 86400000\<rparr>
   \<and> getIntervalInfo \<lparr>interval_entry = Some ''2h'', interval_ms_entry = Some 7200000\<rparr> 3000
     = Inr \<lparr>interval = ''1ms'', intervalMs = Some 1\<rparr>"
  using getIntervalInfo_policy
      [of "\<lparr>interval_entry = None, interval_ms_entry = Some 7200000\<rparr>" 10000000 0]
    getIntervalInfo_policy
      [of "\<lparr>interval_entry = Some ''2h'', interval_ms_entry = Some 7200000\<rparr>" 10000000 7200000]
    getIntervalInfo_policy
      [of "\<lparr>interval_entry = Some ''2h'', interval_ms_entry = Some 7200000\<rparr>" 3000 7200000]
  by simp

text \<open>
  Claim C7. With a hint \<open>h\<close> and a time span of at least 5000 ms, both functions
  return, the label of \<open>getIntervalInfo\<close> is one of 1d, 1h, 1m, 1s, and the clause of
  \<open>getTimeFieldRoundingClause\<close> rounds to the unit that corresponds to that label:
  1d exactly when DAY, 1h exactly when HOUR, 1m exactly when MINUTE, 1s exactly when
  SECOND.
\<close>

theorem interval_rounding_agree:
  assumes "interval_entry sv \<noteq> None" and "interval_ms_entry sv = Some h" and "5000 \<le> t"
  shows "\<exists>r c. getIntervalInfo sv t = Inr r \<and> getTimeFieldRoundingClause sv t tf = Inr c
     \<and> interval r \<in> {''1d'', ''1h'', ''1m'', ''1s''}
     \<and> clause c = toStartOfInterval (case tf of None \<Rightarrow> ''created_at'' | Some x \<Rightarrow> x)
                     (unit_of_label (interval r))
     \<and> console_errors c = []
     \<and> (interval r = ''1d'' \<longleftrightarrow>
          clause c = toStartOfInterval (case tf of None \<Rightarrow> ''created_at'' | Some x \<Rightarrow> x) ''DAY'')
     \<and> (interval r = ''1h'' \<longleftrightarrow>
          clause c = toStartOfInterval (case tf of None \<Rightarrow> ''created_at'' | Some x \<Rightarrow> x) ''HOUR'')
     \<and> (interval r = ''1m'' \<longleftrightarrow>
          clause c = toStartOfInterval (case tf of None \<Rightarrow> ''created_at'' | Some x \<Rightarrow> x) ''MINUTE'')
     \<and> (interval r = ''1s'' \<longleftrightarrow>
          clause c = toStartOfInterval (case tf of None \<Rightarrow> ''created_at'' | Some x \<Rightarrow> x) ''SECOND'')"
proof -
  let ?tf = "case tf of None \<Rightarrow> ''created_at'' | Some x \<Rightarrow> x"
  obtain y where y: "interval_entry sv = Some y"
    using assms(1) by auto
  consider (day) "3600000 < h" | (hour) "60000 < h" "h \<le> 3600000"
    | (minute) "1000 < h" "h \<le> 60000" | (second) "h \<le> 1000"
    by linarith
  then show ?thesis
  proof cases
    case day
    then have "getIntervalInfo sv t = Inr \<lparr>interval = ''1d'', intervalMs = Some 86400000\<rparr>"
      and "getTimeFieldRoundingClause sv t tf =
             Inr \<lparr>clause = toStartOfInterval ?tf ''DAY'', console_errors = []\<rparr>"
      using assms(2,3) y
      by (simp_all add: getIntervalInfo_def getTimeFieldRoundingClause_def ms_defs)
    then show ?thesis
      by (simp add: unit_of_label_def toStartOfInterval_inj)
  next
    case hour
    then have "getIntervalInfo sv t = Inr \<lparr>interval = ''1h'', intervalMs = Some 3600000\<rparr>"
      and "getTimeFieldRoundingClause sv t tf =
             Inr \<lparr>clause = toStartOfInterval ?tf ''HOUR'', console_errors = []\<rparr>"
      using assms(2,3) y
      by (simp_all add: getIntervalInfo_def getTimeFieldRoundingClause_def ms_defs)
    then show ?thesis
      by (simp add: unit_of_label_def toStartOfInterval_inj)
  next
    case minute
    then have "getIntervalInfo sv t = Inr \<lparr>interval = ''1m'', intervalMs = Some 60000\<rparr>"
      and "getTimeFieldRoundingClause sv t tf =
             Inr \<lparr>clause = toStartOfInterval ?tf ''MINUTE'', console_errors = []\<rparr>"
      using assms(2,3) y
      by (simp_all add: getIntervalInfo_def getTimeFieldRoundingClause_def ms_defs)
    then show ?thesis
      by (simp add: unit_of_label_def toStartOfInterval_inj)
  next
    case second
    then have "getIntervalInfo sv t = Inr \<lparr>interval = ''1s'', intervalMs = Some 1000\<rparr>"
      and "getTimeFieldRoundingClause sv t tf =
             Inr \<lparr>clause = toStartOfInterval ?tf ''SECOND'', console_errors = []\<rparr>"
      using assms(2,3) y
      by (simp_all add: getIntervalInfo_def getTimeFieldRoundingClause_def ms_defs)
    then show ?thesis
      by (simp add: unit_of_label_def toStartOfInterval_inj)
  qed
qed

text \<open>The two-hour hint over 10,000,000 ms: one day on both sides.\<close>

theorem interval_rounding_agree_witness:
  "getIntervalInfo \<lparr>interval_entry = Some ''2h'', interval_ms_entry = Some 7200000\<rparr> 10000000
     = Inr \<lparr>interval = ''1d'', intervalMs = Some 86400000\<rparr>
   \<and> getTimeFieldRoundingClause
         \<lparr>interval_entry = Some ''2h'', interval_ms_entry = Some 7200000\<rparr> 10000000 None
     = Inr \<lparr>clause = toStartOfInterval ''created_at'' ''DAY'', console_errors = []\<rparr>"
proof -
  let ?sv = "\<lparr>interval_entry = Some ''2h'', interval_ms_entry = Some 7200000\<rparr>"
  have h: "interval_entry ?sv \<noteq> None" "interval_ms_entry ?sv = Some 7200000"
    "(5000::int) \<le> 10000000"
    by simp_all
  obtain r c where rc: "getIntervalInfo ?sv 10000000 = Inr r"
    "getTimeFieldRoundingClause ?sv 10000000 None = Inr c"
    "clause c = toStartOfInterval ''created_at'' (unit_of_label (interval r))"
    "console_errors c = []"
    using interval_rounding_agree [OF h, of None] by auto
  have r: "r = \<lparr>interval = ''1d'', intervalMs = Some 86400000\<rparr>"
    using rc(1) by (simp add: getIntervalInfo_def ms_defs)
  have "clause c = toStartOfInterval ''created_at'' ''DAY''"
    using rc(3) r by (simp add: unit_of_label_def)
  then have "c = \<lparr>clause = toStartOfInterval ''created_at'' ''DAY'', console_errors = []\<rparr>"
    using rc(4) by simp
  then show ?thesis
    using rc(1,2) r by simp
qed

text \<open>
  Claim C10. Whenever \<open>__interval\<close> is set, both functions read
  \<open>__interval_ms.value\<close> before anything else: each returns a result exactly when
  \<open>__interval_ms\<close> is present whenever \<open>__interval\<close> is set, and each fails with a
  \<open>TypeError\<close> when \<open>__interval\<close> is set and \<open>__interval_ms\<close> is absent, whatever
  the time span is.
\<close>

theorem interval_ms_read_unguarded:
  "((\<exists>r. getIntervalInfo sv t = Inr r) \<longleftrightarrow>
      (interval_entry sv \<noteq> None \<longrightarrow> interval_ms_entry sv \<noteq> None))
   \<and> ((\<exists>c. getTimeFieldRoundingClause sv t tf = Inr c) \<longleftrightarrow>
      (interval_entry sv \<noteq> None \<longrightarrow> interval_ms_entry sv \<noteq> None))
   \<and> (interval_entry sv \<noteq> None \<and> interval_ms_entry sv = None \<longrightarrow>
        getIntervalInfo sv t = Inl TypeError
        \<and> getTimeFieldRoundingClause sv t tf = Inl TypeError)"
  by (auto simp: getIntervalInfo_def getTimeFieldRoundingClause_def split: option.splits)

text \<open>
  A hint without \<open>__interval_ms\<close> fails even below five seconds, where the value is not
  needed; with it both functions return.
\<close>

theorem interval_ms_read_unguarded_witness:
  "getIntervalInfo \<lparr>interval_entry = Some ''1m'', interval_ms_entry = None\<rparr> 3000
     = Inl TypeError
   \<and> getTimeFieldRoundingClause \<lparr>interval_entry = Some ''1m'', interval_ms_entry = None\<rparr>
        3000 None = Inl TypeError
   \<and> (\<exists>r. getIntervalInfo \<lparr>interval_entry = Some ''1m'', interval_ms_entry = Some 60000\<rparr>
        3000 = Inr r)
   \<and> (\<exists>c. getTimeFieldRoundingClause
        \<lparr>interval_entry = Some ''1m'', interval_ms_entry = Some 60000\<rparr> 3000 None = Inr c)"
  using interval_ms_read_unguarded
      [of "\<lparr>interval_entry = Some ''1m'', interval_ms_entry = None\<rparr>" 3000 None]
    interval_ms_read_unguarded
      [of "\<lparr>interval_entry = Some ''1m'', interval_ms_entry = Some 60000\<rparr>" 3000 None]
  by simp

subsection \<open>The loop over the rows\<close>

declare forPoints.simps [simp del]



lemma foldPoint_length [simp]:
  "length (Value (frame (foldPoint tf f k df))) = length (Value (frame df))"
  "length (Time (frame (foldPoint tf f k df))) = length (Time (frame df))"
  by (simp_all add: foldPoint_def Let_def)

lemma foldPoint_config [simp]:
  "config (frame (foldPoint tf f k df)) = config (frame df)"
  "meta (frame (foldPoint tf f k df)) = meta (frame df)"
  by (simp_all add: foldPoint_def Let_def)

lemma forPoints_length:
  "length (Value (frame (forPoints tf f n k df))) = length (Value (frame df))"
  by (induction tf f n k df rule: forPoints.induct) (subst forPoints.simps, simp)

lemma forPoints_Time_length:
  "length (Time (frame (forPoints tf f n k df))) = length (Time (frame df))"
  by (induction tf f n k df rule: forPoints.induct) (subst forPoints.simps, simp)

lemma forPoints_config:
  "config (frame (forPoints tf f n k df)) = config (frame df)"
  by (induction tf f n k df rule: forPoints.induct) (subst forPoints.simps, simp)

lemma forPoints_meta:
  "meta (frame (forPoints tf f n k df)) = meta (frame df)"
  by (induction tf f n k df rule: forPoints.induct) (subst forPoints.simps, simp)

lemma forPoints_Value_nth:
  "i < length (Value (frame df)) \<Longrightarrow>
   Value (frame (forPoints tf f n k df)) ! i =
     (if k \<le> i \<and> i < n then totalValue (Value (frame df) ! i) (vget (fvalues f) i)
      else Value (frame df) ! i)"
proof (induction tf f n k df rule: forPoints.induct)
  case (1 tf f n k df)
  show ?case
  proof (cases "k < n")
    case True
    have "Value (frame (forPoints tf f n k df)) ! i =
          Value (frame (forPoints tf f n (Suc k) (foldPoint tf f k df))) ! i"
      using True by (subst forPoints.simps) simp
    also have "\<dots> = (if Suc k \<le> i \<and> i < n
                       then totalValue (Value (frame (foldPoint tf f k df)) ! i) (vget (fvalues f) i)
                       else Value (frame (foldPoint tf f k df)) ! i)"
      using "1.IH" [OF True] "1.prems" by simp
    also have "\<dots> = (if k \<le> i \<and> i < n then totalValue (Value (frame df) ! i) (vget (fvalues f) i)
                       else Value (frame df) ! i)"
      using "1.prems" True by (cases "i = k") (auto simp: foldPoint_def Let_def vget_def nth_list_update)
    finally show ?thesis .
  next
    case False
    then show ?thesis by (subst forPoints.simps) auto
  qed
qed

lemma forPoints_Time_nth:
  "i < length (Time (frame df)) \<Longrightarrow>
   Time (frame (forPoints tf f n k df)) ! i =
     (if k \<le> i \<and> i < n then vget (fvalues tf) i else Time (frame df) ! i)"
proof (induction tf f n k df rule: forPoints.induct)
  case (1 tf f n k df)
  show ?case
  proof (cases "k < n")
    case True
    have "Time (frame (forPoints tf f n k df)) ! i =
          Time (frame (forPoints tf f n (Suc k) (foldPoint tf f k df))) ! i"
      using True by (subst forPoints.simps) simp
    also have "\<dots> = (if Suc k \<le> i \<and> i < n then vget (fvalues tf) i
                       else Time (frame (foldPoint tf f k df)) ! i)"
      using "1.IH" [OF True] "1.prems" by simp
    also have "\<dots> = (if k \<le> i \<and> i < n then vget (fvalues tf) i else Time (frame df) ! i)"
      using "1.prems" True by (cases "i = k") (auto simp: foldPoint_def Let_def nth_list_update)
    finally show ?thesis .
  next
    case False
    then show ?thesis by (subst forPoints.simps) auto
  qed
qed

lemma forPoints_flag:
  "hasNonZeroValues (forPoints tf f n k df) =
     (hasNonZeroValues df \<or>
      (\<exists>i. k \<le> i \<and> i < n \<and>
           gtZero (totalValue (vget (Value (frame df)) i) (vget (fvalues f) i))))"
proof (induction tf f n k df rule: forPoints.induct)
  case (1 tf f n k df)
  show ?case
  proof (cases "k < n")
    case True
    let ?df = "foldPoint tf f k df"
    have same: "vget (Value (frame ?df)) i = vget (Value (frame df)) i" if "Suc k \<le> i" for i
      using that by (simp add: foldPoint_def Let_def vget_def)
    have "hasNonZeroValues (forPoints tf f n k df) =
          hasNonZeroValues (forPoints tf f n (Suc k) ?df)"
      using True by (subst forPoints.simps) simp
    also have "\<dots> = (hasNonZeroValues ?df \<or>
        (\<exists>i. Suc k \<le> i \<and> i < n \<and>
             gtZero (totalValue (vget (Value (frame ?df)) i) (vget (fvalues f) i))))"
      using "1.IH" [OF True] by simp
    also have "\<dots> = (hasNonZeroValues ?df \<or>
        (\<exists>i. Suc k \<le> i \<and> i < n \<and>
             gtZero (totalValue (vget (Value (frame df)) i) (vget (fvalues f) i))))"
      using same by auto
    also have "hasNonZeroValues ?df =
        (hasNonZeroValues df \<or> gtZero (totalValue (vget (Value (frame df)) k) (vget (fvalues f) k)))"
      by (simp add: foldPoint_def Let_def)
    finally show ?thesis
      using True by (metis Suc_leI le_eq_less_or_eq Suc_le_lessD order_refl)
  next
    case False
    then show ?thesis by (subst forPoints.simps) auto
  qed
qed

text \<open>
  Claim C2. Folding a column into the accumulated series is point-wise. Two nulls fold
  to null; in every other case a missing cell counts as 0 and the two cells are added,
  so a present and an absent cell give the present value and two present cells give
  their sum. Running the loop over a column replaces row \<open>i\<close> of the accumulator by
  the fold of that row with row \<open>i\<close> of the column.
\<close>

theorem fold_pointwise:
  "totalValue JNull JNull = JNull
   \<and> (\<not> (a = JNull \<and> b = JNull) \<longrightarrow> totalValue a b = JNum (orZero a + orZero b))
   \<and> orZero JNull = 0 \<and> orZero (JNum x) = x
   \<and> totalValue (JNum x) JNull = JNum x
   \<and> totalValue JNull (JNum y) = JNum y
   \<and> totalValue (JNum x) (JNum y) = JNum (x + y)
   \<and> (i < totalLength \<and> length (Value (frame df)) = totalLength \<longrightarrow>
        Value (frame (forPoints timeField field totalLength 0 df)) ! i
          = totalValue (Value (frame df) ! i) (vget (fvalues field) i))"
  by (simp add: totalValue_def orZero_def forPoints_Value_nth)

text \<open>
  A present and an absent cell, an absent cell and a zero, and a null row of a column
  folded into a fresh accumulator.
\<close>

theorem fold_pointwise_witness:
  "totalValue (JNum 2) JNull = JNum 2
   \<and> totalValue JNull (JNum 0) = JNum 0
   \<and> Value (frame (forPoints \<lparr>name = ''time'', fvalues = [JNum 0, JNum 60000]\<rparr>
        \<lparr>name = ''warn'', fvalues = [JNum 1, JNull]\<rparr> 2 0
        (newEntry grafana warning False 2))) ! 1 = JNull"
  using fold_pointwise [of "JNum 2" JNull 2 0 1 2 "newEntry grafana warning False 2"
      "\<lparr>name = ''time'', fvalues = [JNum 0, JNum 60000]\<rparr>"
      "\<lparr>name = ''warn'', fvalues = [JNum 1, JNull]\<rparr>"]
   fold_pointwise [of "JNull" "JNum 0" 2 0 1 2 "newEntry grafana warning False 2"
      "\<lparr>name = ''time'', fvalues = [JNum 0, JNum 60000]\<rparr>"
      "\<lparr>name = ''warn'', fvalues = [JNum 1, JNull]\<rparr>"]
  by (simp add: newEntry_def grafana_def vget_def orZero_def)

subsection \<open>The fold in the doubles\<close>

















subsection \<open>The reducer\<close>

text \<open>
  Claim C3. \<open>aggregateRawLogsVolume\<close> returns the empty list when it is given no frame
  or more than one, and when its single frame has no column named \<open>time\<close>. It is a
  total function: no input makes it fail.
\<close>

theorem aggregate_soft_failure:
  "(length raw \<noteq> 1 \<longrightarrow> aggregateRawLogsVolume G raw = [])
   \<and> ((\<forall>f \<in> set (frame_fields fr). name f \<noteq> ''time'') \<longrightarrow>
        aggregateRawLogsVolume G [fr] = [])"
  by (simp add: aggregateRawLogsVolume_def TIME_FIELD_ALIAS_def)

text \<open>No frame at all, and a frame without a time column.\<close>

theorem aggregate_soft_failure_witness:
  "aggregateRawLogsVolume grafana [] = []
   \<and> aggregateRawLogsVolume grafana
       [\<lparr>frame_fields = [\<lparr>name = ''warn'', fvalues = [JNum 1]\<rparr>]\<rparr>] = []"
  using aggregate_soft_failure [of "[]" grafana
      "\<lparr>frame_fields = [\<lparr>name = ''warn'', fvalues = [JNum 1]\<rparr>]\<rparr>"]
  by simp

lemma set_update_cases:
  "(l, e) \<in> set (AList.update k v al) \<Longrightarrow> (l = k \<and> e = v) \<or> (l, e) \<in> set al"
  by (induction al) (auto split: if_splits)

lemma foldl_pushNonZero:
  "foldl pushNonZero acc es = acc @ map frame (filter hasNonZeroValues es)"
  by (induction es arbitrary: acc) (simp_all add: pushNonZero_def)

lemma aggregate_single:
  assumes "partition (\<lambda>f. name f = ''time'') (frame_fields fr) = (timeField # others, levelFields)"
  shows "aggregateRawLogsVolume G [fr] =
           map frame (filter hasNonZeroValues (map snd (levelMap G timeField levelFields)))"
  using assms
  by (simp add: aggregateRawLogsVolume_def TIME_FIELD_ALIAS_def foldl_pushNonZero
      del: partition_filter_conv)

lemma forField_invariant:
  assumes tbl: "\<forall>(l, e) \<in> set tbl. P l e"
    and init: "\<And>l. P l (newEntry G l one n)"
    and step: "\<And>l e. P l e \<Longrightarrow> P l (forPoints tf f n 0 e)"
  shows "\<forall>(l, e) \<in> set (forField G tf one n tbl f). P l e"
proof -
  let ?k = "getLogLevelFromKey G (name f)"
  let ?df = "case map_of tbl ?k of None \<Rightarrow> newEntry G ?k one n | Some d \<Rightarrow> d"
  have "P ?k ?df"
  proof (cases "map_of tbl ?k")
    case None
    then show ?thesis by (simp add: init)
  next
    case (Some d)
    then have "(?k, d) \<in> set tbl" by (rule map_of_SomeD)
    then show ?thesis using tbl Some by auto
  qed
  then have "P ?k (forPoints tf f n 0 ?df)" by (rule step)
  then show ?thesis
    using tbl by (auto simp: forField_def Let_def dest!: set_update_cases)
qed

lemma foldl_forField_invariant:
  assumes tbl: "\<forall>(l, e) \<in> set tbl. P l e"
    and init: "\<And>l. P l (newEntry G l one n)"
    and step: "\<And>f l e. f \<in> set fs \<Longrightarrow> P l e \<Longrightarrow> P l (forPoints tf f n 0 e)"
  shows "\<forall>(l, e) \<in> set (foldl (forField G tf one n) tbl fs). P l e"
  using tbl step
proof (induction fs arbitrary: tbl)
  case Nil
  then show ?case by simp
next
  case (Cons f fs)
  have "\<forall>(l, e) \<in> set (forField G tf one n tbl f). P l e"
    using Cons.prems(1) init Cons.prems(2) [of f]
    by (intro forField_invariant) auto
  then show ?case
    using Cons.IH [of "forField G tf one n tbl f"] Cons.prems(2) by simp
qed

lemma levelMap_invariant:
  assumes init: "\<And>l. P l (newEntry G l
        (length fs = 1 \<and> name (fs ! 0) = ''logs'') (length (fvalues tf)))"
    and step: "\<And>f l e. f \<in> set fs \<Longrightarrow> P l e \<Longrightarrow> P l (forPoints tf f (length (fvalues tf)) 0 e)"
  shows "\<forall>(l, e) \<in> set (levelMap G tf fs). P l e"
  unfolding levelMap_def Let_def DEFAULT_LOGS_ALIAS_def
  by (rule foldl_forField_invariant) (use init step in simp_all)

lemma forField_keys:
  "map fst (forField G tf one n tbl f) =
     (if getLogLevelFromKey G (name f) \<in> set (map fst tbl) then map fst tbl
      else map fst tbl @ [getLogLevelFromKey G (name f)])"
  by (simp add: forField_def Let_def AList.update_keys del: set_map)

lemma foldl_forField_distinct:
  "distinct (map fst tbl) \<Longrightarrow> distinct (map fst (foldl (forField G tf one n) tbl fs))"
  by (induction fs arbitrary: tbl) (simp_all add: forField_def Let_def AList.distinct_update)

lemma foldl_forField_keys:
  "set (map fst (foldl (forField G tf one n) tbl fs)) =
     set (map fst tbl) \<union> (\<lambda>f. getLogLevelFromKey G (name f)) ` set fs"
  by (induction fs arbitrary: tbl) (auto simp: forField_keys simp del: set_map)

lemma levelMap_distinct: "distinct (map fst (levelMap G tf fs))"
  by (simp add: levelMap_def Let_def foldl_forField_distinct)

lemma levelMap_keys:
  "fst ` set (levelMap G tf fs) = (\<lambda>f. getLogLevelFromKey G (name f)) ` set fs"
  using foldl_forField_keys [of G tf _ _ "[]" fs]
  by (simp add: levelMap_def Let_def)

lemma levelMap_config:
  "\<forall>(l, e) \<in> set (levelMap G tf fs).
     config (frame e) =
       getLogVolumeFieldConfig G l (length fs = 1 \<and> name (fs ! 0) = ''logs'')"
  by (rule levelMap_invariant) (simp_all add: newEntry_def forPoints_config)


lemma nonNegative_vget: "\<forall>v \<in> set xs. nonNegative v \<Longrightarrow> nonNegative (vget xs i)"
  by (simp add: vget_def nonNegative_def)

lemma nonNegative_totalValue:
  "nonNegative a \<Longrightarrow> nonNegative b \<Longrightarrow> nonNegative (totalValue a b)"
  by (auto simp: totalValue_def nonNegative_def orZero_def split: jsval.splits)

lemma gtZero_totalValue:
  "nonNegative a \<Longrightarrow> nonNegative b \<Longrightarrow> gtZero (totalValue a b) \<longleftrightarrow> gtZero a \<or> gtZero b"
  by (auto simp: totalValue_def nonNegative_def orZero_def gtZero_def split: jsval.splits)

lemma forPoints_counts:
  assumes f: "\<forall>v \<in> set (fvalues f). nonNegative v"
    and len: "length (Value (frame e)) = n"
    and nn: "\<forall>v \<in> set (Value (frame e)). nonNegative v"
    and flag: "hasNonZeroValues e \<longleftrightarrow> (\<exists>v \<in> set (Value (frame e)). gtZero v)"
  shows "length (Value (frame (forPoints tf f n 0 e))) = n
    \<and> (\<forall>v \<in> set (Value (frame (forPoints tf f n 0 e))). nonNegative v)
    \<and> (hasNonZeroValues (forPoints tf f n 0 e) \<longleftrightarrow>
         (\<exists>v \<in> set (Value (frame (forPoints tf f n 0 e))). gtZero v))"
proof -
  let ?V = "Value (frame e)"
  let ?V' = "Value (frame (forPoints tf f n 0 e))"
  have len': "length ?V' = n"
    using len by (simp add: forPoints_length)
  have nth: "?V' ! i = totalValue (?V ! i) (vget (fvalues f) i)" if "i < n" for i
    using that len by (simp add: forPoints_Value_nth)
  have nnV: "nonNegative (?V ! i)" if "i < n" for i
    using that len nn by simp
  have nnF: "nonNegative (vget (fvalues f) i)" for i
    using f by (rule nonNegative_vget)
  have nn': "\<forall>v \<in> set ?V'. nonNegative v"
    using len' nth nnV nnF by (auto simp: in_set_conv_nth nonNegative_totalValue)
  have pos: "gtZero (?V' ! i) \<longleftrightarrow> gtZero (?V ! i) \<or> gtZero (vget (fvalues f) i)" if "i < n" for i
    using that nth nnV nnF by (simp add: gtZero_totalValue)
  have flag_nth: "hasNonZeroValues e \<longleftrightarrow> (\<exists>i<n. gtZero (?V ! i))"
    unfolding flag using len by (metis in_set_conv_nth)
  have "hasNonZeroValues (forPoints tf f n 0 e) \<longleftrightarrow>
          hasNonZeroValues e \<or> (\<exists>i<n. gtZero (totalValue (?V ! i) (vget (fvalues f) i)))"
    using len by (auto simp: forPoints_flag vget_def)
  also have "\<dots> \<longleftrightarrow> (\<exists>i<n. gtZero (?V ! i)) \<or> (\<exists>i<n. gtZero (?V' ! i))"
    unfolding flag_nth using nth by auto
  also have "\<dots> \<longleftrightarrow> (\<exists>i<n. gtZero (?V' ! i))"
    using pos by auto
  also have "\<dots> \<longleftrightarrow> (\<exists>v \<in> set ?V'. gtZero v)"
    using len' by (metis in_set_conv_nth)
  finally show ?thesis
    using len' nn' by simp
qed

lemma levelMap_counts:
  assumes missing: "MISSING_VALUE G = JNull \<or> MISSING_VALUE G = JUndefined"
    and counts: "\<forall>f \<in> set fs. \<forall>v \<in> set (fvalues f). nonNegative v"
  shows "\<forall>(l, e) \<in> set (levelMap G tf fs).
           length (Value (frame e)) = length (fvalues tf)
           \<and> (\<forall>v \<in> set (Value (frame e)). nonNegative v)
           \<and> (hasNonZeroValues e \<longleftrightarrow> (\<exists>v \<in> set (Value (frame e)). gtZero v))"
proof (rule levelMap_invariant)
  fix l
  show "length (Value (frame (newEntry G l (length fs = 1 \<and> name (fs ! 0) = ''logs'')
            (length (fvalues tf))))) = length (fvalues tf)
      \<and> (\<forall>v \<in> set (Value (frame (newEntry G l (length fs = 1 \<and> name (fs ! 0) = ''logs'')
            (length (fvalues tf))))). nonNegative v)
      \<and> (hasNonZeroValues (newEntry G l (length fs = 1 \<and> name (fs ! 0) = ''logs'')
            (length (fvalues tf))) \<longleftrightarrow>
          (\<exists>v \<in> set (Value (frame (newEntry G l (length fs = 1 \<and> name (fs ! 0) = ''logs'')
            (length (fvalues tf))))). gtZero v))"
    using missing by (auto simp: newEntry_def nonNegative_def gtZero_def)
next
  fix f l and e :: LevelEntry
  assume "f \<in> set fs"
    and "length (Value (frame e)) = length (fvalues tf)
      \<and> (\<forall>v \<in> set (Value (frame e)). nonNegative v)
      \<and> (hasNonZeroValues e \<longleftrightarrow> (\<exists>v \<in> set (Value (frame e)). gtZero v))"
  then show "length (Value (frame (forPoints tf f (length (fvalues tf)) 0 e))) = length (fvalues tf)
      \<and> (\<forall>v \<in> set (Value (frame (forPoints tf f (length (fvalues tf)) 0 e))). nonNegative v)
      \<and> (hasNonZeroValues (forPoints tf f (length (fvalues tf)) 0 e) \<longleftrightarrow>
           (\<exists>v \<in> set (Value (frame (forPoints tf f (length (fvalues tf)) 0 e))). gtZero v))"
    using counts by (intro forPoints_counts) auto
qed

lemma forPoints_positive_flag:
  assumes "length (Value (frame e)) = n"
  shows "(\<exists>v \<in> set (Value (frame (forPoints tf f n 0 e))). gtZero v) \<longrightarrow>
           hasNonZeroValues (forPoints tf f n 0 e)"
proof
  let ?V' = "Value (frame (forPoints tf f n 0 e))"
  assume "\<exists>v \<in> set ?V'. gtZero v"
  then obtain i where i: "i < length ?V'" "gtZero (?V' ! i)"
    by (metis in_set_conv_nth)
  then have "i < n"
    using assms by (simp add: forPoints_length)
  then have "gtZero (totalValue (vget (Value (frame e)) i) (vget (fvalues f) i))"
    using i(2) assms by (simp add: forPoints_Value_nth vget_def)
  then show "hasNonZeroValues (forPoints tf f n 0 e)"
    using \<open>i < n\<close> unfolding forPoints_flag by blast
qed

lemma forField_folded:
  assumes tbl: "\<forall>(l, e) \<in> set tbl. length (Value (frame e)) = n \<and> Q e"
    and step: "\<And>e. length (Value (frame e)) = n \<Longrightarrow> Q (forPoints tf f n 0 e)"
  shows "\<forall>(l, e) \<in> set (forField G tf one n tbl f). length (Value (frame e)) = n \<and> Q e"
proof -
  let ?k = "getLogLevelFromKey G (name f)"
  let ?df = "case map_of tbl ?k of None \<Rightarrow> newEntry G ?k one n | Some d \<Rightarrow> d"
  have len: "length (Value (frame ?df)) = n"
  proof (cases "map_of tbl ?k")
    case None
    then show ?thesis by (simp add: newEntry_def)
  next
    case (Some d)
    then have "(?k, d) \<in> set tbl" by (rule map_of_SomeD)
    then show ?thesis using tbl Some by auto
  qed
  then have "length (Value (frame (forPoints tf f n 0 ?df))) = n \<and> Q (forPoints tf f n 0 ?df)"
    using step [of ?df] by (simp add: forPoints_length)
  then show ?thesis
    using tbl by (auto simp: forField_def Let_def dest!: set_update_cases)
qed

lemma foldl_forField_folded:
  assumes tbl: "\<forall>(l, e) \<in> set tbl. length (Value (frame e)) = n \<and> Q e"
    and step: "\<And>f e. f \<in> set fs \<Longrightarrow> length (Value (frame e)) = n \<Longrightarrow> Q (forPoints tf f n 0 e)"
  shows "\<forall>(l, e) \<in> set (foldl (forField G tf one n) tbl fs).
           length (Value (frame e)) = n \<and> Q e"
  using tbl step
proof (induction fs arbitrary: tbl)
  case Nil
  then show ?case by simp
next
  case (Cons f fs)
  have "\<forall>(l, e) \<in> set (forField G tf one n tbl f). length (Value (frame e)) = n \<and> Q e"
    using Cons.prems(1) Cons.prems(2) [of f]
    by (intro forField_folded) auto
  then show ?case
    using Cons.IH [of "forField G tf one n tbl f"] Cons.prems(2) by simp
qed

lemma levelMap_positive_flag:
  "\<forall>(l, e) \<in> set (levelMap G tf fs).
     length (Value (frame e)) = length (fvalues tf)
     \<and> ((\<exists>v \<in> set (Value (frame e)). gtZero v) \<longrightarrow> hasNonZeroValues e)"
  unfolding levelMap_def Let_def
  by (rule foldl_forField_folded) (simp_all add: forPoints_positive_flag)

text \<open>
  For every input, an entry of the level map whose fully folded series has a row greater
  than 0 has its flag set, and so is in the output.
\<close>

lemma positive_row_emitted:
  assumes "partition (\<lambda>f. name f = ''time'') (frame_fields fr) = (timeField # others, levelFields)"
  shows "\<forall>(l, e) \<in> set (levelMap G timeField levelFields).
           (\<exists>v \<in> set (Value (frame e)). gtZero v) \<longrightarrow>
             frame e \<in> set (aggregateRawLogsVolume G [fr])"
proof -
  have "frame e \<in> set (aggregateRawLogsVolume G [fr])"
    if "(l, e) \<in> set (levelMap G timeField levelFields)"
      and "\<exists>v \<in> set (Value (frame e)). gtZero v" for l e
  proof -
    have "hasNonZeroValues e"
      using levelMap_positive_flag [of G timeField levelFields] that by blast
    moreover have "e \<in> snd ` set (levelMap G timeField levelFields)"
      using that(1) by force
    ultimately show ?thesis
      unfolding aggregate_single [OF assms] by simp
  qed
  then show ?thesis by blast
qed

text \<open>
  When no cell of a level column is a negative number, the flag of every entry of the
  level map agrees with its fully folded series: the output consists of exactly those
  entries, in insertion order, whose series has a row greater than 0.
\<close>

lemma emitted_iff_positive_on_counts:
  assumes "partition (\<lambda>f. name f = ''time'') (frame_fields fr) = (timeField # others, levelFields)"
    and "MISSING_VALUE G = JNull \<or> MISSING_VALUE G = JUndefined"
    and "\<forall>f \<in> set levelFields. \<forall>v \<in> set (fvalues f). nonNegative v"
  shows "aggregateRawLogsVolume G [fr] =
           map frame (filter (\<lambda>e. \<exists>v \<in> set (Value (frame e)). gtZero v)
             (map snd (levelMap G timeField levelFields)))
       \<and> distinct (map fst (levelMap G timeField levelFields))
       \<and> fst ` set (levelMap G timeField levelFields) =
           (\<lambda>f. getLogLevelFromKey G (name f)) ` set levelFields
       \<and> (\<forall>d \<in> set (aggregateRawLogsVolume G [fr]). \<exists>v \<in> set (Value d). gtZero v)"
proof -
  have inv: "\<forall>(l, e) \<in> set (levelMap G timeField levelFields).
      hasNonZeroValues e \<longleftrightarrow> (\<exists>v \<in> set (Value (frame e)). gtZero v)"
    using levelMap_counts [OF assms(2,3), of timeField] by auto
  have "filter hasNonZeroValues (map snd (levelMap G timeField levelFields)) =
        filter (\<lambda>e. \<exists>v \<in> set (Value (frame e)). gtZero v)
          (map snd (levelMap G timeField levelFields))"
    using inv by (intro filter_cong) auto
  then have out: "aggregateRawLogsVolume G [fr] =
           map frame (filter (\<lambda>e. \<exists>v \<in> set (Value (frame e)). gtZero v)
             (map snd (levelMap G timeField levelFields)))"
    using aggregate_single [OF assms(1)] by simp
  then have "\<forall>d \<in> set (aggregateRawLogsVolume G [fr]). \<exists>v \<in> set (Value d). gtZero v"
    by auto
  then show ?thesis
    using out levelMap_distinct levelMap_keys by simp
qed

text \<open>
  Claim C8. In the output for a single frame with a time column, the display name of a
  series is \<open>logs\<close> when the frame has exactly one column besides the time column, that
  column is named \<open>logs\<close>, and the level of the series is \<open>unknown\<close>; in every other
  case it is the name of the level. With one such column that classifies to
  \<open>unknown\<close>, the output is at most one series, named \<open>logs\<close>.
\<close>

theorem display_name_of_series:
  assumes "partition (\<lambda>f. name f = ''time'') (frame_fields fr) = (timeField # others, levelFields)"
  shows "aggregateRawLogsVolume G [fr] =
           map frame (filter hasNonZeroValues (map snd (levelMap G timeField levelFields)))
       \<and> (\<forall>(l, e) \<in> set (levelMap G timeField levelFields).
            displayNameFromDS (config (frame e)) =
              (if length levelFields = 1 \<and> name (levelFields ! 0) = ''logs'' \<and> l = unknown
               then ''logs'' else levelName l))
       \<and> (length levelFields = 1 \<and> name (levelFields ! 0) = ''logs''
            \<and> getLogLevelFromKey G ''logs'' = unknown \<longrightarrow>
          length (aggregateRawLogsVolume G [fr]) \<le> 1
          \<and> (\<forall>d \<in> set (aggregateRawLogsVolume G [fr]). displayNameFromDS (config d) = ''logs''))"
proof -
  let ?one = "length levelFields = 1 \<and> name (levelFields ! 0) = ''logs''"
  have out: "aggregateRawLogsVolume G [fr] =
           map frame (filter hasNonZeroValues (map snd (levelMap G timeField levelFields)))"
    by (rule aggregate_single [OF assms])
  have cfg: "config (frame e) = getLogVolumeFieldConfig G l ?one"
    if "(l, e) \<in> set (levelMap G timeField levelFields)" for l e
    using levelMap_config [of G timeField levelFields] that by blast
  have name_of: "displayNameFromDS (config (frame e)) =
              (if ?one \<and> l = unknown then ''logs'' else levelName l)"
    if "(l, e) \<in> set (levelMap G timeField levelFields)" for l e
    unfolding cfg [OF that] by (simp add: getLogVolumeFieldConfig_def)
  have one: "length (aggregateRawLogsVolume G [fr]) \<le> 1
      \<and> (\<forall>d \<in> set (aggregateRawLogsVolume G [fr]). displayNameFromDS (config d) = ''logs'')"
    if h: "?one" "getLogLevelFromKey G ''logs'' = unknown"
  proof -
    obtain f where f: "levelFields = [f]"
      using h(1) by (cases levelFields) simp_all
    have keys: "map fst (levelMap G timeField levelFields) = [unknown]"
      using f h by (simp add: levelMap_def Let_def forField_keys)
    then have "length (map fst (levelMap G timeField levelFields)) = 1"
      by simp
    then have len: "length (levelMap G timeField levelFields) = 1"
      by simp
    have short: "length (aggregateRawLogsVolume G [fr]) \<le> 1"
      unfolding out
      using len length_filter_le [of hasNonZeroValues "map snd (levelMap G timeField levelFields)"]
      by simp
    have all_unknown: "l = unknown" if "(l, e) \<in> set (levelMap G timeField levelFields)" for l e
    proof -
      have "l \<in> set (map fst (levelMap G timeField levelFields))"
        using that by force
      then show ?thesis unfolding keys by simp
    qed
    have "displayNameFromDS (config d) = ''logs''"
      if "d \<in> set (aggregateRawLogsVolume G [fr])" for d
    proof -
      have "d \<in> frame ` snd ` set (levelMap G timeField levelFields)"
        using that unfolding out by auto
      then obtain l e where le: "(l, e) \<in> set (levelMap G timeField levelFields)" "d = frame e"
        by auto
      then show ?thesis
        using name_of [OF le(1)] all_unknown [OF le(1)] h by simp
    qed
    then show ?thesis using short by simp
  qed
  show ?thesis
  proof (intro conjI)
    show "aggregateRawLogsVolume G [fr] =
           map frame (filter hasNonZeroValues (map snd (levelMap G timeField levelFields)))"
      by (rule out)
    show "\<forall>(l, e) \<in> set (levelMap G timeField levelFields).
            displayNameFromDS (config (frame e)) =
              (if length levelFields = 1 \<and> name (levelFields ! 0) = ''logs'' \<and> l = unknown
               then ''logs'' else levelName l)"
      using name_of by auto
    show "length levelFields = 1 \<and> name (levelFields ! 0) = ''logs''
            \<and> getLogLevelFromKey G ''logs'' = unknown \<longrightarrow>
          length (aggregateRawLogsVolume G [fr]) \<le> 1
          \<and> (\<forall>d \<in> set (aggregateRawLogsVolume G [fr]). displayNameFromDS (config d) = ''logs'')"
      using one by blast
  qed
qed



text \<open>
  The example of the specification, with a \<open>trace\<close> column of zeros and nulls added:
  \<open>warn\<close> and \<open>warning\<close> fold to \<open>[1, 0, 3]\<close>, which is emitted; \<open>trace\<close> is in the
  map and is dropped.
\<close>

lemma emitted_iff_positive_example:
  "aggregateRawLogsVolume grafana
     [\<lparr>frame_fields = [\<lparr>name = ''time'', fvalues = [JNum 0, JNum 60000, JNum 120000]\<rparr>,
                       \<lparr>name = ''warn'', fvalues = [JNum 1, JNum 0, JNum 2]\<rparr>,
                       \<lparr>name = ''warning'', fvalues = [JNum 0, JNum 0, JNum 1]\<rparr>,
                       \<lparr>name = ''trace'', fvalues = [JNum 0, JNull, JNum 0]\<rparr>]\<rparr>]
   = [\<lparr>Time = [JNum 0, JNum 60000, JNum 120000], Value = [JNum 1, JNum 0, JNum 3],
       config = \<lparr>displayNameFromDS = ''warning'', fixedColor = ''warning''\<rparr>,
       meta = None\<rparr>]
   \<and> map fst (levelMap grafana \<lparr>name = ''time'', fvalues = [JNum 0, JNum 60000, JNum 120000]\<rparr>
        [\<lparr>name = ''warn'', fvalues = [JNum 1, JNum 0, JNum 2]\<rparr>,
         \<lparr>name = ''warning'', fvalues = [JNum 0, JNum 0, JNum 1]\<rparr>,
         \<lparr>name = ''trace'', fvalues = [JNum 0, JNull, JNum 0]\<rparr>]) = [warning, trace]"
proof -
  let ?tf = "\<lparr>name = ''time'', fvalues = [JNum 0, JNum 60000, JNum 120000]\<rparr>"
  let ?fs = "[\<lparr>name = ''warn'', fvalues = [JNum 1, JNum 0, JNum 2]\<rparr>,
              \<lparr>name = ''warning'', fvalues = [JNum 0, JNum 0, JNum 1]\<rparr>,
              \<lparr>name = ''trace'', fvalues = [JNum 0, JNull, JNum 0]\<rparr>]"
  let ?fr = "\<lparr>frame_fields = ?tf # ?fs\<rparr>"
  have h1: "partition (\<lambda>f. name f = ''time'') (frame_fields ?fr) = (?tf # [], ?fs)"
    by simp
  have h2: "MISSING_VALUE grafana = JNull \<or> MISSING_VALUE grafana = JUndefined"
    by (simp add: grafana_def)
  have h3: "\<forall>f \<in> set ?fs. \<forall>v \<in> set (fvalues f). nonNegative v"
    by (simp add: nonNegative_def)
  have keys: "map fst (levelMap grafana ?tf ?fs) = [warning, trace]"
    by code_simp
  have entries: "map snd (levelMap grafana ?tf ?fs) =
      [\<lparr>frame = \<lparr>Time = [JNum 0, JNum 60000, JNum 120000], Value = [JNum 1, JNum 0, JNum 3],
           config = \<lparr>displayNameFromDS = ''warning'', fixedColor = ''warning''\<rparr>,
           meta = None\<rparr>, hasNonZeroValues = True\<rparr>,
       \<lparr>frame = \<lparr>Time = [JNum 0, JNum 60000, JNum 120000], Value = [JNum 0, JNull, JNum 0],
           config = \<lparr>displayNameFromDS = ''trace'', fixedColor = ''trace''\<rparr>,
           meta = None\<rparr>, hasNonZeroValues = False\<rparr>]"
    by code_simp
  show ?thesis
    using emitted_iff_positive_on_counts [OF h1 h2 h3] keys
    unfolding entries by (simp add: gtZero_def)
qed


text \<open>
  A frame with the single column \<open>logs\<close> gives one series named \<open>logs\<close>; with a second
  column the same data is named \<open>unknown\<close>.
\<close>

theorem display_name_of_series_witness:
  "map (\<lambda>d. displayNameFromDS (config d))
     (aggregateRawLogsVolume grafana
        [\<lparr>frame_fields = [\<lparr>name = ''time'', fvalues = [JNum 0, JNum 60000]\<rparr>,
                          \<lparr>name = ''logs'', fvalues = [JNum 3, JNum 4]\<rparr>]\<rparr>]) = [''logs'']
   \<and> map (\<lambda>d. displayNameFromDS (config d))
     (aggregateRawLogsVolume grafana
        [\<lparr>frame_fields = [\<lparr>name = ''time'', fvalues = [JNum 0, JNum 60000]\<rparr>,
                          \<lparr>name = ''logs'', fvalues = [JNum 3, JNum 4]\<rparr>,
                          \<lparr>name = ''err'', fvalues = [JNum 0, JNum 1]\<rparr>]\<rparr>])
       = [''unknown'', ''error'']"
proof -
  let ?tf = "\<lparr>name = ''time'', fvalues = [JNum 0, JNum 60000]\<rparr>"
  let ?logs = "\<lparr>name = ''logs'', fvalues = [JNum 3, JNum 4]\<rparr>"
  let ?err = "\<lparr>name = ''err'', fvalues = [JNum 0, JNum 1]\<rparr>"
  have h1: "partition (\<lambda>f. name f = ''time'') (frame_fields \<lparr>frame_fields = [?tf, ?logs]\<rparr>)
              = (?tf # [], [?logs])"
    by simp
  have h2: "partition (\<lambda>f. name f = ''time'')
              (frame_fields \<lparr>frame_fields = [?tf, ?logs, ?err]\<rparr>) = (?tf # [], [?logs, ?err])"
    by simp
  have one: "length [?logs] = 1 \<and> name ([?logs] ! 0) = ''logs''
      \<and> getLogLevelFromKey grafana ''logs'' = unknown"
    by (simp add: grafana_def classify_def)
  have len1: "length (aggregateRawLogsVolume grafana [\<lparr>frame_fields = [?tf, ?logs]\<rparr>]) = 1"
    by code_simp
  have "map (\<lambda>d. displayNameFromDS (config d))
          (aggregateRawLogsVolume grafana [\<lparr>frame_fields = [?tf, ?logs]\<rparr>]) = [''logs'']"
    using display_name_of_series [OF h1, of grafana] one len1
    by (cases "aggregateRawLogsVolume grafana [\<lparr>frame_fields = [?tf, ?logs]\<rparr>]") auto
  moreover have lm: "levelMap grafana ?tf [?logs, ?err] =
      [(unknown, \<lparr>frame = \<lparr>Time = [JNum 0, JNum 60000], Value = [JNum 3, JNum 4],
           config = \<lparr>displayNameFromDS = ''unknown'', fixedColor = ''unknown''\<rparr>,
           meta = None\<rparr>, hasNonZeroValues = True\<rparr>),
       (error, \<lparr>frame = \<lparr>Time = [JNum 0, JNum 60000], Value = [JNum 0, JNum 1],
           config = \<lparr>displayNameFromDS = ''error'', fixedColor = ''error''\<rparr>,
           meta = None\<rparr>, hasNonZeroValues = True\<rparr>)]"
    by code_simp
  have "map (\<lambda>d. displayNameFromDS (config d))
          (aggregateRawLogsVolume grafana [\<lparr>frame_fields = [?tf, ?logs, ?err]\<rparr>])
        = [''unknown'', ''error'']"
    using display_name_of_series [OF h2, of grafana] unfolding lm by simp
  ultimately show ?thesis by simp
qed

subsection \<open>The pipeline\<close>

lemmas observer_defs =
  observer_next_def observer_error_def observer_complete_def observer_unsubscribe_def
  teardown_def

lemma lifecycle_subscribe: "lifecycle [] subscribe"
  by (simp add: lifecycle_def subscribe_def observer_defs loading_def)

lemma lifecycle_step:
  assumes "lifecycle events s"
  shows "lifecycle (events @ [x]) (step G options s x)"
proof (cases x)
  case (UpstreamNext r)
  then show ?thesis
    using assms
    by (cases "batch_error r")
      (auto simp: lifecycle_def on_next_def observer_defs split: if_splits)
next
  case UpstreamComplete
  then show ?thesis
    using assms
    by (auto simp: lifecycle_def on_complete_def Let_def observer_defs split: if_splits)
next
  case (UpstreamError e)
  then show ?thesis
    using assms
    by (auto simp: lifecycle_def on_error_def observer_defs split: if_splits)
next
  case SubscribeReturns
  then show ?thesis
    using assms
    by (auto simp: lifecycle_def observer_defs split: if_splits)
next
  case Unsubscribe
  then show ?thesis
    using assms
    by (auto simp: lifecycle_def observer_defs split: if_splits)
qed

lemma lifecycle_run: "lifecycle events (queryLogsVolume G options events)"
proof (induction events rule: rev_induct)
  case Nil
  show ?case by (simp add: queryLogsVolume_def lifecycle_subscribe)
next
  case (snoc x xs)
  then show ?case
    using lifecycle_step [of xs "queryLogsVolume G options xs" x G options]
    by (simp add: queryLogsVolume_def)
qed

lemma closed_step:
  assumes "observerClosed s"
  shows "delivered (step G options s x) = delivered s \<and> observerClosed (step G options s x)"
  using assms
  by (cases x)
    (auto simp: on_next_def on_complete_def on_error_def Let_def observer_defs
      split: option.splits)

lemma closed_run:
  assumes "observerClosed s"
  shows "delivered (foldl (step G options) s events) = delivered s
    \<and> observerClosed (foldl (step G options) s events)"
  using assms
proof (induction events arbitrary: s)
  case Nil
  then show ?case by simp
next
  case (Cons x xs)
  then show ?case using closed_step [of s G options x] by simp
qed

lemma torn_down_step:
  assumes "upstreamClosed s"
  shows "rawLogsVolume (step G options s x) = rawLogsVolume s \<and> upstreamClosed (step G options s x)"
  using assms by (cases x) (auto simp: observer_defs)

lemma torn_down_run:
  assumes "upstreamClosed s"
  shows "rawLogsVolume (foldl (step G options) s events) = rawLogsVolume s
    \<and> upstreamClosed (foldl (step G options) s events)"
  using assms
proof (induction events arbitrary: s)
  case Nil
  then show ?case by simp
next
  case (Cons x xs)
  then show ?case using torn_down_step [of s G options x] by simp
qed


lemma run_append:
  "queryLogsVolume G options (xs @ ys) =
     foldl (step G options) (queryLogsVolume G options xs) ys"
  by (simp add: queryLogsVolume_def)

lemma published_shapes:
  assumes "lifecycle events s"
  shows "(\<exists>rest. published (delivered s) = loading # rest \<and> length rest \<le> 1
            \<and> (\<forall>r \<in> set rest. resp_state r \<noteq> Loading))
    \<and> length (filter (\<lambda>r. resp_state r = Done \<or> resp_state r = Error)
          (published (delivered s))) \<le> 1
    \<and> ((\<exists>r \<in> set (published (delivered s)). resp_state r = Done) \<longrightarrow>
          UpstreamComplete \<in> set events)"
proof -
  consider (start) "delivered s = [Next loading]"
    | (failed) e where "delivered s =
        [Next loading, Next \<lparr>resp_state = Error, resp_error = Some e, resp_data = []\<rparr>, Failed e]"
    | (finished) d where "delivered s =
        [Next loading, Next \<lparr>resp_state = Done, resp_error = None, resp_data = d\<rparr>, Complete]"
        "UpstreamComplete \<in> set events"
    using assms unfolding lifecycle_def by (auto split: if_splits)
  then show ?thesis
    by cases (simp_all add: loading_def)
qed

text \<open>
  Claim C4. In every run of \<open>queryLogsVolume\<close> the first state published is
  \<open>Loading\<close> and at most one state follows it, which is not \<open>Loading\<close>; so
  \<open>Done\<close> or \<open>Error\<close> is published at most once and after \<open>Loading\<close>.
  \<open>Done\<close> is published only when the query observable has completed. Once the caller
  has unsubscribed, nothing more is delivered, whatever happens later; the subscription
  to the query observable is closed as soon as the subscribe function has returned its
  teardown, and from then on no batch is added to \<open>rawLogsVolume\<close>.
\<close>

theorem queryLogsVolume_lifecycle:
  "(\<exists>rest. published (delivered (queryLogsVolume G options events)) =
        \<lparr>resp_state = Loading, resp_error = None, resp_data = []\<rparr> # rest
      \<and> length rest \<le> 1 \<and> (\<forall>r \<in> set rest. resp_state r \<noteq> Loading))
   \<and> length (filter (\<lambda>r. resp_state r = Done \<or> resp_state r = Error)
         (published (delivered (queryLogsVolume G options events)))) \<le> 1
   \<and> ((\<exists>r \<in> set (published (delivered (queryLogsVolume G options events))).
          resp_state r = Done) \<longrightarrow> UpstreamComplete \<in> set events)
   \<and> delivered (queryLogsVolume G options (events @ Unsubscribe # later)) =
       delivered (queryLogsVolume G options events)
   \<and> (SubscribeReturns \<in> set (events @ Unsubscribe # later) \<longrightarrow>
        upstreamClosed (queryLogsVolume G options (events @ Unsubscribe # later)))
   \<and> (SubscribeReturns \<in> set events \<longrightarrow>
        rawLogsVolume (queryLogsVolume G options (events @ Unsubscribe # later)) =
          rawLogsVolume (queryLogsVolume G options events))"
proof -
  let ?s = "queryLogsVolume G options events"
  let ?u = "step G options ?s Unsubscribe"
  let ?t = "queryLogsVolume G options (events @ Unsubscribe # later)"
  have t: "?t = foldl (step G options) ?u later"
    by (simp add: run_append)
  have inv: "lifecycle events ?s"
    by (rule lifecycle_run)
  have inv_t: "lifecycle (events @ Unsubscribe # later) ?t"
    by (rule lifecycle_run)
  have u: "observerClosed ?u" "delivered ?u = delivered ?s" "rawLogsVolume ?u = rawLogsVolume ?s"
    by (simp_all add: observer_defs)
  have closed_t: "observerClosed ?t" and same: "delivered ?t = delivered ?s"
    using closed_run [OF u(1), of G options later] u(2) t by simp_all
  have down: "upstreamClosed ?t" if "SubscribeReturns \<in> set (events @ Unsubscribe # later)"
    using inv_t closed_t that unfolding lifecycle_def by blast
  have raw: "rawLogsVolume ?t = rawLogsVolume ?s" if "SubscribeReturns \<in> set events"
  proof -
    have "teardownAdded ?s"
      using inv that unfolding lifecycle_def by blast
    then have "upstreamClosed ?u"
      using inv unfolding lifecycle_def by (auto simp: observer_defs)
    then show ?thesis
      using torn_down_run [of ?u G options later] u(3) t by simp
  qed
  show ?thesis
    using published_shapes [OF inv] same down raw
    unfolding loading_def by blast
qed

text \<open>
  Claim C5. While the subscriber is open (no terminal state has been published and the
  caller has not unsubscribed), an error of the query observable, or a batch that carries
  an error, publishes \<open>Error\<close> with that error and empty data, and sends the error to
  the subscriber, which closes it. Whatever happens later, nothing more is delivered, so
  no \<open>Done\<close> follows; and \<open>datasource.query\<close> has been called once.
\<close>

theorem error_published_once:
  assumes "\<not> observerClosed (queryLogsVolume G options events)"
    and "x = UpstreamError e \<or> (\<exists>r. x = UpstreamNext r \<and> batch_error r = Some e)"
  shows "delivered (queryLogsVolume G options (events @ x # later)) =
           [Next \<lparr>resp_state = Loading, resp_error = None, resp_data = []\<rparr>,
            Next \<lparr>resp_state = Error, resp_error = Some e, resp_data = []\<rparr>,
            Failed e]
       \<and> observerClosed (queryLogsVolume G options (events @ x # later))
       \<and> queryCalls (queryLogsVolume G options (events @ x # later)) = 1"
proof -
  let ?s = "queryLogsVolume G options events"
  let ?t = "queryLogsVolume G options (events @ x # later)"
  have inv: "lifecycle events ?s"
    by (rule lifecycle_run)
  have "lifecycle (events @ x # later) ?t"
    by (rule lifecycle_run)
  then have calls: "queryCalls ?t = 1"
    unfolding lifecycle_def by blast
  have start: "delivered ?s = [Next loading]" and up: "\<not> upstreamClosed ?s"
    using inv assms(1) unfolding lifecycle_def by auto
  have x: "delivered (step G options ?s x) =
      [Next loading, Next \<lparr>resp_state = Error, resp_error = Some e, resp_data = []\<rparr>, Failed e]
    \<and> observerClosed (step G options ?s x)"
    using assms start up
    by (auto simp: on_next_def on_error_def observer_defs)
  have "?t = foldl (step G options) (step G options ?s x) later"
    by (simp add: run_append)
  then show ?thesis
    using closed_run [of "step G options ?s x" G options later] x calls
    by (simp add: loading_def)
qed


text \<open>
  A run that completes publishes \<open>Loading\<close> and then \<open>Done\<close> with the reduced
  series and its provenance. A run that is unsubscribed after the first batch publishes
  \<open>Loading\<close> only, although a batch and the completion follow.
\<close>

theorem queryLogsVolume_lifecycle_witness:
  "published (delivered (queryLogsVolume grafana options1
      [SubscribeReturns, UpstreamNext batch1, UpstreamComplete])) =
     [\<lparr>resp_state = Loading, resp_error = None, resp_data = []\<rparr>,
      \<lparr>resp_state = Done, resp_error = None,
       resp_data =
         [\<lparr>Time = [JNum 0, JNum 60000, JNum 120000], Value = [JNum 1, JNum 0, JNum 3],
           config = \<lparr>displayNameFromDS = ''warning'', fixedColor = ''warning''\<rparr>,
           meta = Some \<lparr>targets = [TQuery ''A''], absoluteRange = (0, 180000)\<rparr>\<rparr>]\<rparr>]
   \<and> UpstreamComplete \<in> set [SubscribeReturns, UpstreamNext batch1, UpstreamComplete]
   \<and> delivered (queryLogsVolume grafana options1
        ([SubscribeReturns, UpstreamNext batch1] @ Unsubscribe # [UpstreamNext batch1, UpstreamComplete]))
       = [Next \<lparr>resp_state = Loading, resp_error = None, resp_data = []\<rparr>]
   \<and> upstreamClosed (queryLogsVolume grafana options1
        ([SubscribeReturns, UpstreamNext batch1] @ Unsubscribe # [UpstreamNext batch1, UpstreamComplete]))
   \<and> rawLogsVolume (queryLogsVolume grafana options1
        ([SubscribeReturns, UpstreamNext batch1] @ Unsubscribe # [UpstreamNext batch1, UpstreamComplete]))
       = batch_data batch1"
proof -
  have run1: "published (delivered (queryLogsVolume grafana options1
      [SubscribeReturns, UpstreamNext batch1, UpstreamComplete])) =
     [\<lparr>resp_state = Loading, resp_error = None, resp_data = []\<rparr>,
      \<lparr>resp_state = Done, resp_error = None,
       resp_data =
         [\<lparr>Time = [JNum 0, JNum 60000, JNum 120000], Value = [JNum 1, JNum 0, JNum 3],
           config = \<lparr>displayNameFromDS = ''warning'', fixedColor = ''warning''\<rparr>,
           meta = Some \<lparr>targets = [TQuery ''A''], absoluteRange = (0, 180000)\<rparr>\<rparr>]\<rparr>]"
    by code_simp
  have before: "delivered (queryLogsVolume grafana options1 [SubscribeReturns, UpstreamNext batch1])
      = [Next \<lparr>resp_state = Loading, resp_error = None, resp_data = []\<rparr>]"
    "rawLogsVolume (queryLogsVolume grafana options1 [SubscribeReturns, UpstreamNext batch1])
      = batch_data batch1"
    by code_simp+
  have "UpstreamComplete \<in> set [SubscribeReturns, UpstreamNext batch1, UpstreamComplete]"
    using queryLogsVolume_lifecycle
        [of grafana options1 "[SubscribeReturns, UpstreamNext batch1, UpstreamComplete]" "[]"]
    unfolding run1 by simp
  then show ?thesis
    using run1 before queryLogsVolume_lifecycle
        [of grafana options1 "[SubscribeReturns, UpstreamNext batch1]"
          "[UpstreamNext batch1, UpstreamComplete]"]
    by simp
qed

text \<open>
  The query observable fails after one batch; and a batch with an embedded error
  arrives before the subscribe function has returned, followed by the completion.
\<close>

theorem error_published_once_witness:
  "delivered (queryLogsVolume grafana options1
      ([SubscribeReturns, UpstreamNext batch1] @ UpstreamError (DataQueryError ''timeout'')
          # [UpstreamNext batch1, UpstreamComplete]))
     = [Next \<lparr>resp_state = Loading, resp_error = None, resp_data = []\<rparr>,
        Next \<lparr>resp_state = Error, resp_error = Some (DataQueryError ''timeout''), resp_data = []\<rparr>,
        Failed (DataQueryError ''timeout'')]
   \<and> delivered (queryLogsVolume grafana options1
      ([UpstreamNext batch1]
         @ UpstreamNext \<lparr>batch_error = Some (DataQueryError ''syntax''), batch_data = []\<rparr>
          # [UpstreamComplete, SubscribeReturns]))
     = [Next \<lparr>resp_state = Loading, resp_error = None, resp_data = []\<rparr>,
        Next \<lparr>resp_state = Error, resp_error = Some (DataQueryError ''syntax''), resp_data = []\<rparr>,
        Failed (DataQueryError ''syntax'')]"
proof -
  have h1: "\<not> observerClosed (queryLogsVolume grafana options1 [SubscribeReturns, UpstreamNext batch1])"
    by code_simp
  have h2: "\<not> observerClosed (queryLogsVolume grafana options1 [UpstreamNext batch1])"
    by code_simp
  show ?thesis
    using error_published_once [OF h1, of "UpstreamError (DataQueryError ''timeout'')"
        "DataQueryError ''timeout''" "[UpstreamNext batch1, UpstreamComplete]"]
      error_published_once [OF h2,
        of "UpstreamNext \<lparr>batch_error = Some (DataQueryError ''syntax''), batch_data = []\<rparr>"
        "DataQueryError ''syntax''" "[UpstreamComplete, SubscribeReturns]"]
    by simp
qed

end
